theory Spec2Isabelle
  imports Complex_Main
begin

section \<open>Runs test above and below the mean: the computation engine of script.py\<close>

text \<open>
  The engine of \<^verbatim>\<open>script.py\<close> is a chain of small services: a sequence generator, a runs
  counter, a statistics calculator, a critical value provider, a hypothesis validator and
  the facade \<^verbatim>\<open>RunsTestService.execute\<close> that composes them.

  Numbers: Python's unbounded \<^verbatim>\<open>int\<close> is \<^typ>\<open>int\<close>. Python's \<^verbatim>\<open>float\<close> is modelled by
  \<^typ>\<open>real\<close>: every operation is taken exact, so rounding, infinities and NaN are outside
  this model. Decimal literals are written as fractions (\<^verbatim>\<open>0.5\<close> is \<open>5 / 10\<close>).

  Exceptions are values of the type \<open>error\<close>; a function of the source that evaluates a
  division, a square root or a dictionary subscript returns \<open>error + 'a\<close>, with \<open>Inl\<close>
  for the exception raised.
\<close>

subsection \<open>Exceptions and the partial primitives of Python\<close>

text \<open>
  \<open>ZeroDivisionError\<close> is raised by \<^verbatim>\<open>/\<close> on a zero divisor, \<open>ValueError\<close> by
  \<^verbatim>\<open>math.sqrt\<close> on a negative argument, \<open>KeyError\<close> by a dictionary subscript on a missing
  key. \<open>InvalidInputError\<close> is the error kind of the specification; the source defines no
  such exception and no function below produces it.
\<close>

datatype error = ZeroDivisionError | ValueError | KeyError | InvalidInputError

definition truediv :: "real \<Rightarrow> real \<Rightarrow> error + real" where
  "truediv a b = (if b = 0 then Inl ZeroDivisionError else Inr (a / b))"

definition math_sqrt :: "real \<Rightarrow> error + real" where
  "math_sqrt x = (if x < 0 then Inl ValueError else Inr (sqrt x))"

text \<open>
  Sequencing of statements that may raise: the continuation runs on the value of a
  statement that returned, and an exception is passed on.
\<close>

definition then_do :: "error + 'a \<Rightarrow> ('a \<Rightarrow> error + 'b) \<Rightarrow> error + 'b" where
  "then_do m k = (case m of Inl e \<Rightarrow> Inl e | Inr x \<Rightarrow> k x)"

definition subscript :: "('k \<times> 'v) list \<Rightarrow> 'k \<Rightarrow> error + 'v" where
  "subscript d k = (case map_of d k of None \<Rightarrow> Inl KeyError | Some v \<Rightarrow> Inr v)"

definition dict_get :: "('k \<times> 'v) list \<Rightarrow> 'k \<Rightarrow> 'v \<Rightarrow> 'v" where
  "dict_get d k dflt = (case map_of d k of None \<Rightarrow> dflt | Some v \<Rightarrow> v)"

subsection \<open>SequenceGenerator\<close>

definition THRESHOLD :: real where
  "THRESHOLD = 5 / 10"

text \<open>\<^verbatim>\<open>[0 if value < THRESHOLD else 1 for value in data]\<close>\<close>

definition generate :: "real list \<Rightarrow> int list" where
  "generate data = map (\<lambda>value. if value < THRESHOLD then 0 else 1) data"

subsection \<open>RunsCounter\<close>

text \<open>
  \<^verbatim>\<open>count\<close> returns 0 on the empty list; otherwise \<^verbatim>\<open>runs\<close> starts at 1 and the loop
  \<^verbatim>\<open>for i in range(1, len(sequence))\<close> adds one wherever an element differs from its
  predecessor. The loop is a left fold over the indices \<open>[1..<length sequence]\<close>; every
  index read is in range.
\<close>

definition count_step :: "int list \<Rightarrow> int \<Rightarrow> nat \<Rightarrow> int" where
  "count_step sequence runs i =
     (if sequence ! i \<noteq> sequence ! (i - 1) then runs + 1 else runs)"

definition count :: "int list \<Rightarrow> int" where
  "count sequence =
     (if sequence = [] then 0
      else foldl (count_step sequence) 1 [1..<length sequence])"

text \<open>\<^verbatim>\<open>sequence.count(0), sequence.count(1)\<close>\<close>

definition count_values :: "int list \<Rightarrow> int \<times> int" where
  "count_values sequence =
     (int (count_list sequence 0), int (count_list sequence 1))"

subsection \<open>StatisticsCalculator\<close>

text \<open>\<^verbatim>\<open>(2 * n0 * n1) / n + 0.5\<close>: the division is unguarded.\<close>

definition calculate_expected_runs :: "int \<Rightarrow> int \<Rightarrow> int \<Rightarrow> error + real" where
  "calculate_expected_runs n0 n1 n =
     (case truediv (of_int (2 * n0 * n1)) (of_int n) of
        Inl e \<Rightarrow> Inl e
      | Inr q \<Rightarrow> Inr (q + 5 / 10))"

definition calculate_variance :: "int \<Rightarrow> int \<Rightarrow> int \<Rightarrow> error + real" where
  "calculate_variance n0 n1 n =
     (if n \<le> 1 then Inr 0
      else
        let numerator = 2 * n0 * n1 * (2 * n0 * n1 - n);
            denominator = n * n * (n - 1)
        in if denominator \<noteq> 0 then truediv (of_int numerator) (of_int denominator)
           else Inr 0)"

definition calculate_z_statistic :: "real \<Rightarrow> real \<Rightarrow> real \<Rightarrow> error + real" where
  "calculate_z_statistic c0 mu_c0 variance =
     (if variance \<le> 0 then Inr 0
      else
        case math_sqrt variance of
          Inl e \<Rightarrow> Inl e
        | Inr sigma_c0 \<Rightarrow> truediv (c0 - mu_c0) sigma_c0)"

subsection \<open>CriticalValueProvider\<close>

definition Z_TABLE :: "(real \<times> real) list" where
  "Z_TABLE = [(1 / 100, 2576 / 1000), (5 / 100, 196 / 100), (10 / 100, 1645 / 1000)]"

definition DEFAULT_ALPHA :: real where
  "DEFAULT_ALPHA = 5 / 100"

text \<open>
  \<^verbatim>\<open>cls.Z_TABLE.get(alpha, cls.Z_TABLE[cls.DEFAULT_ALPHA])\<close>: the default argument is
  evaluated first, by a subscript that raises on a missing key.
\<close>

definition get_critical_value :: "real \<Rightarrow> error + real" where
  "get_critical_value alpha =
     (case subscript Z_TABLE DEFAULT_ALPHA of
        Inl e \<Rightarrow> Inl e
      | Inr dflt \<Rightarrow> Inr (dict_get Z_TABLE alpha dflt))"

subsection \<open>HypothesisValidator\<close>

definition validate :: "real \<Rightarrow> real \<Rightarrow> bool" where
  "validate z0 z_critical = (\<bar>z0\<bar> \<le> z_critical)"

subsection \<open>RunsTestResult and RunsTestService\<close>

record RunsTestResult =
  sequence :: "int list"
  c0 :: int
  n0 :: int
  n1 :: int
  n :: int
  mu_c0 :: real
  variance :: real
  sigma_c0 :: real
  z0 :: real
  z_critical :: real
  is_independent :: bool
  alpha :: real
  confidence :: real

text \<open>
  \<^verbatim>\<open>execute\<close> runs the services in the order of the source; the first exception raised
  ends the call, and then no result object is built. The record's field names are
  constants from here on, so the parameters of \<^verbatim>\<open>execute\<close> and its local variables
  are bound by \<open>\<lambda>\<close> and \<open>let\<close>.
\<close>

definition execute :: "real list \<Rightarrow> real \<Rightarrow> error + RunsTestResult" where
  "execute = (\<lambda>data alpha.
     let sequence = generate data;
         c0 = count sequence;
         (n0, n1) = count_values sequence;
         n = int (length data)
     in
     then_do (calculate_expected_runs n0 n1 n) (\<lambda>mu_c0.
     then_do (calculate_variance n0 n1 n) (\<lambda>variance.
     then_do (if variance > 0 then math_sqrt variance else Inr 0) (\<lambda>sigma_c0.
     then_do (calculate_z_statistic (of_int c0) mu_c0 variance) (\<lambda>z0.
     then_do (get_critical_value alpha) (\<lambda>z_critical.
       let is_independent = validate z0 z_critical
       in Inr \<lparr>sequence = sequence, c0 = c0, n0 = n0, n1 = n1, n = n,
               mu_c0 = mu_c0, variance = variance, sigma_c0 = sigma_c0,
               z0 = z0, z_critical = z_critical,
               is_independent = is_independent, alpha = alpha,
               confidence = (1 - alpha) * 100\<rparr>))))))"

section \<open>Auxiliary facts\<close>

subsection \<open>The primitives\<close>

lemma then_do_simps:
  "then_do (Inl e) k = Inl e"
  "then_do (Inr x) k = k x"
  by (simp_all add: then_do_def)

subsection \<open>Closed forms of the services\<close>

lemma get_critical_value_eq:
  "get_critical_value a =
     Inr (if a = 1 / 100 then 2576 / 1000
          else if a = 10 / 100 then 1645 / 1000 else 196 / 100)"
  by (simp add: get_critical_value_def subscript_def dict_get_def Z_TABLE_def
      DEFAULT_ALPHA_def)

lemma calculate_z_statistic_eq:
  "calculate_z_statistic c m v = Inr (if v \<le> 0 then 0 else (c - m) / sqrt v)"
  by (simp add: calculate_z_statistic_def math_sqrt_def truediv_def)

lemma calculate_expected_runs_eq:
  fixes k0 k1 k :: int
  shows "calculate_expected_runs k0 k1 k =
     (if k = 0 then Inl ZeroDivisionError
      else Inr (of_int (2 * k0 * k1) / of_int k + 5 / 10))"
  by (simp add: calculate_expected_runs_def truediv_def)

lemma calculate_variance_eq:
  fixes k0 k1 k :: int
  shows "calculate_variance k0 k1 k =
     Inr (if k \<le> 1 then 0
          else of_int (2 * k0 * k1 * (2 * k0 * k1 - k)) / of_int (k\<^sup>2 * (k - 1)))"
  by (simp add: calculate_variance_def truediv_def Let_def power2_eq_square)

subsection \<open>The encoder and the counters\<close>

lemma generate_length: "length (generate data) = length data"
  by (simp add: generate_def)

lemma generate_binary: "set (generate data) \<subseteq> {0, 1}"
  by (auto simp add: generate_def)

lemma count_list_binary:
  "set xs \<subseteq> {0, 1} \<Longrightarrow> count_list xs (0::int) + count_list xs 1 = length xs"
  by (induction xs) auto

lemma count_list_generate_low:
  "\<forall>x \<in> set data. x < 1 / 2 \<Longrightarrow> count_list (generate data) 1 = 0"
  by (induction data) (simp_all add: generate_def THRESHOLD_def)

lemma count_list_generate_high:
  "\<forall>x \<in> set data. 1 / 2 \<le> x \<Longrightarrow> count_list (generate data) 0 = 0"
  by (induction data) (simp_all add: generate_def THRESHOLD_def)

text \<open>
  The loop of \<^verbatim>\<open>count\<close> started with \<open>r\<close> runs over the indices \<open>[a..<b]\<close> never
  lowers \<open>r\<close> and raises it by at most one per index.
\<close>

lemma foldl_count_step_bounds:
  "r \<le> foldl (count_step xs) r [a..<b]
   \<and> foldl (count_step xs) r [a..<b] \<le> r + int (b - a)"
proof (induction b)
  case 0
  show ?case by simp
next
  case (Suc b)
  show ?case
  proof (cases "a \<le> b")
    case True
    then have "[a..<Suc b] = [a..<b] @ [b]" by simp
    with Suc True show ?thesis
      by (auto simp add: count_step_def Suc_diff_le)
  next
    case False
    then show ?thesis by simp
  qed
qed

lemma count_bounds:
  "xs \<noteq> [] \<Longrightarrow> 1 \<le> count xs \<and> count xs \<le> int (length xs)"
proof -
  assume ne: "xs \<noteq> []"
  then have len: "1 \<le> length xs" by (cases xs) simp_all
  from foldl_count_step_bounds [of 1 xs 1 "length xs"]
  have "1 \<le> foldl (count_step xs) 1 [1..<length xs]"
    and "foldl (count_step xs) 1 [1..<length xs] \<le> 1 + int (length xs - 1)"
    by simp_all
  with ne len show ?thesis by (simp add: count_def)
qed

lemma count_zero_iff: "count xs = 0 \<longleftrightarrow> xs = []"
proof
  assume z: "count xs = 0"
  show "xs = []"
  proof (rule ccontr)
    assume "xs \<noteq> []"
    then have "1 \<le> count xs" using count_bounds by blast
    with z show False by simp
  qed
next
  assume "xs = []"
  then show "count xs = 0" by (simp add: count_def)
qed

subsection \<open>The orchestrator on a non-empty sample\<close>

text \<open>
  On a non-empty sample no service raises, and every field of the result has a closed
  form in the counts of the encoded sequence.
\<close>

lemma execute_nonempty:
  fixes data :: "real list" and a :: real
  assumes ne: "data \<noteq> []"
  defines "s \<equiv> generate data"
  defines "k0 \<equiv> int (count_list s 0)" and "k1 \<equiv> int (count_list s 1)"
  defines "k \<equiv> int (length data)"
  defines "m \<equiv> of_int (2 * k0 * k1) / of_int k + 5 / 10"
  defines "v \<equiv> (if k \<le> 1 then 0
      else of_int (2 * k0 * k1 * (2 * k0 * k1 - k)) / of_int (k\<^sup>2 * (k - 1)))"
  defines "z \<equiv> (if v \<le> 0 then 0 else (of_int (count s) - m) / sqrt v)"
  defines "zc \<equiv> (if a = 1 / 100 then 2576 / 1000
      else if a = 10 / 100 then 1645 / 1000 else 196 / 100)"
  shows "execute data a =
     Inr \<lparr>sequence = s, c0 = count s, n0 = k0, n1 = k1, n = k, mu_c0 = m,
          variance = v, sigma_c0 = (if v > 0 then sqrt v else 0), z0 = z,
          z_critical = zc, is_independent = (\<bar>z\<bar> \<le> zc), alpha = a,
          confidence = (1 - a) * 100\<rparr>"
proof -
  from ne have k: "k \<noteq> 0" by (simp add: k_def)
  have mu: "calculate_expected_runs k0 k1 k = Inr m"
    using k by (simp add: calculate_expected_runs_eq m_def)
  have var: "calculate_variance k0 k1 k = Inr v"
    by (simp add: calculate_variance_eq v_def)
  have sg: "(if v > 0 then math_sqrt v else Inr 0) = Inr (if v > 0 then sqrt v else 0)"
    by (simp add: math_sqrt_def)
  have zz: "calculate_z_statistic (of_int (count s)) m v = Inr z"
    by (simp add: calculate_z_statistic_eq z_def)
  have cr: "get_critical_value a = Inr zc"
    by (simp add: get_critical_value_eq zc_def)
  have "execute data a =
     then_do (calculate_expected_runs k0 k1 k) (\<lambda>mu_c0.
     then_do (calculate_variance k0 k1 k) (\<lambda>variance.
     then_do (if variance > 0 then math_sqrt variance else Inr 0) (\<lambda>sigma_c0.
     then_do (calculate_z_statistic (of_int (count s)) mu_c0 variance) (\<lambda>z0.
     then_do (get_critical_value a) (\<lambda>z_critical.
       Inr \<lparr>sequence = s, c0 = count s, n0 = k0, n1 = k1, n = k,
               mu_c0 = mu_c0, variance = variance, sigma_c0 = sigma_c0,
               z0 = z0, z_critical = z_critical,
               is_independent = validate z0 z_critical, alpha = a,
               confidence = (1 - a) * 100\<rparr>)))))"
    by (simp add: execute_def Let_def count_values_def s_def k0_def k1_def k_def)
  also have "\<dots> = Inr \<lparr>sequence = s, c0 = count s, n0 = k0, n1 = k1, n = k, mu_c0 = m,
          variance = v, sigma_c0 = (if v > 0 then sqrt v else 0), z0 = z,
          z_critical = zc, is_independent = (\<bar>z\<bar> \<le> zc), alpha = a,
          confidence = (1 - a) * 100\<rparr>"
    by (simp only: mu var sg zz cr then_do_simps validate_def)
  finally show ?thesis .
qed

lemma execute_nonempty_returns:
  "data \<noteq> [] \<Longrightarrow> \<exists>r. execute data a = Inr r"
  by (simp add: execute_nonempty)

lemma execute_empty:
  "execute [] a = Inl ZeroDivisionError"
  by (simp add: execute_def generate_def count_def count_values_def
      calculate_expected_runs_eq then_do_simps)

subsection \<open>Arithmetic of the variance\<close>

lemma both_positive_bound:
  fixes a b :: int
  assumes "0 < a" "0 < b"
  shows "a + b \<le> 2 * a * b"
proof -
  have "0 \<le> a * (b - 1) + b * (a - 1)" using assms by simp
  also have "\<dots> = 2 * a * b - (a + b)" by (simp add: algebra_simps)
  finally show ?thesis by simp
qed

lemma numerator_nonneg:
  fixes a b :: int
  assumes "0 \<le> a" "0 \<le> b"
  shows "0 \<le> 2 * a * b * (2 * a * b - (a + b))"
proof (cases "a = 0 \<or> b = 0")
  case True
  then show ?thesis by auto
next
  case False
  with assms have "0 < a" and "0 < b" by auto
  then have "0 \<le> 2 * a * b - (a + b)"
    using both_positive_bound [of a b] by simp
  moreover have "0 \<le> 2 * a * b" using assms by simp
  ultimately show ?thesis by (rule mult_nonneg_nonneg [rotated])
qed

lemma variance_value_nonneg:
  fixes k0 k1 k :: int
  assumes "0 \<le> k0" "0 \<le> k1" "k0 + k1 = k"
  shows "0 \<le> (if k \<le> 1 then 0
      else of_int (2 * k0 * k1 * (2 * k0 * k1 - k)) / (of_int (k\<^sup>2 * (k - 1)) :: real))"
proof (cases "k \<le> 1")
  case True
  then show ?thesis by simp
next
  case False
  have "0 \<le> 2 * k0 * k1 * (2 * k0 * k1 - k)"
    using numerator_nonneg [OF assms(1,2)] assms(3) by simp
  then have n: "(0::real) \<le> of_int (2 * k0 * k1 * (2 * k0 * k1 - k))"
    by (simp only: of_int_0_le_iff)
  from False have "0 \<le> k\<^sup>2 * (k - 1)" by simp
  then have d: "(0::real) \<le> of_int (k\<^sup>2 * (k - 1))"
    by (simp only: of_int_0_le_iff)
  from n d
  have "0 \<le> of_int (2 * k0 * k1 * (2 * k0 * k1 - k)) / (of_int (k\<^sup>2 * (k - 1)) :: real)"
    by (rule divide_nonneg_nonneg)
  with False show ?thesis by simp
qed

subsection \<open>The scenario of the specification\<close>

lemma scenario_rejects:
  "\<not> \<bar>(5 - 29 / 10) / sqrt (84 / 100)\<bar> \<le> (196 / 100 :: real)"
proof -
  define s :: real where "s = sqrt (84 / 100)"
  have "sqrt (84 / 100) < sqrt (1::real)"
    by (rule real_sqrt_less_mono) simp
  then have lt: "s < 1" by (simp add: s_def)
  have pos: "0 < s" by (simp add: s_def)
  have "196 / 100 * s < 196 / 100 * 1"
    using lt by (intro mult_strict_left_mono) simp_all
  then have "196 / 100 * s < 5 - 29 / 10" by linarith
  then have "196 / 100 < (5 - 29 / 10) / s"
    using pos by (simp only: pos_less_divide_eq)
  then have "\<not> \<bar>(5 - 29 / 10) / s\<bar> \<le> 196 / 100" by linarith
  then show ?thesis unfolding s_def .
qed

section \<open>The claims\<close>

text \<open>
  Claim C1, as stated: for the empty sample \<^verbatim>\<open>execute\<close> fails with
  \<open>InvalidInputError\<close>, by a non-emptiness guard of the orchestrator that runs before
  any statistic is computed. The source has no such guard and no such exception:
  \<^verbatim>\<open>execute\<close> encodes and counts the empty sample, and the first statistic,
  \<^verbatim>\<open>calculate_expected_runs\<close>, divides by \<open>n = 0\<close>. The call ends with
  \<open>ZeroDivisionError\<close>, which is not \<open>InvalidInputError\<close>.
\<close>

theorem execute_empty_counterexample:
  "execute [] (5 / 100) = Inl ZeroDivisionError
   \<and> execute [] (5 / 100) \<noteq> Inl InvalidInputError"
  by (simp add: execute_empty)

text \<open>
  Claim C1, amended: for the empty sample and every significance level \<^verbatim>\<open>execute\<close>
  fails and produces no result; the exception is the \<open>ZeroDivisionError\<close> raised by
  \<^verbatim>\<open>calculate_expected_runs\<close> on the counts \<open>n0 = n1 = n = 0\<close> of the empty
  sample.
\<close>

theorem execute_empty_raises:
  "execute [] a = Inl ZeroDivisionError
   \<and> count_values (generate []) = (0, 0)
   \<and> calculate_expected_runs 0 0 (int (length ([] :: real list))) = Inl ZeroDivisionError"
  by (simp add: execute_empty generate_def count_values_def calculate_expected_runs_eq)

text \<open>
  Claim C2: \<^verbatim>\<open>get_critical_value\<close> maps 0.01 to 2.576, 0.05 to 1.96 and 0.10 to 1.645,
  and every other significance level, 0.03 for one, to the entry 1.96 of 0.05; it
  never raises.
\<close>

theorem get_critical_value_table:
  "get_critical_value (1 / 100) = Inr (2576 / 1000)
   \<and> get_critical_value (5 / 100) = Inr (196 / 100)
   \<and> get_critical_value (10 / 100) = Inr (1645 / 1000)
   \<and> get_critical_value (3 / 100) = Inr (196 / 100)
   \<and> get_critical_value a =
       Inr (if a = 1 / 100 then 2576 / 1000
            else if a = 10 / 100 then 1645 / 1000
            else 196 / 100)"
  by (simp add: get_critical_value_eq)

text \<open>
  Claim C3: \<^verbatim>\<open>calculate_z_statistic\<close> returns 0 whenever the variance is at most 0
  and \<open>(c0 - mu_c0) / sqrt variance\<close> otherwise; it always returns, so neither the
  division nor the square root raises.
\<close>

theorem calculate_z_statistic_policy:
  "calculate_z_statistic c m v = Inr (if v \<le> 0 then 0 else (c - m) / sqrt v)
   \<and> calculate_z_statistic c m v \<noteq> Inl ZeroDivisionError"
  by (simp add: calculate_z_statistic_eq)

text \<open>
  Claim C4: \<^verbatim>\<open>calculate_variance\<close> returns 0 for every \<open>n \<le> 1\<close>, whatever the two
  counts are, and \<open>2 n0 n1 (2 n0 n1 - n) / (n\<^sup>2 (n - 1))\<close> for every \<open>n > 1\<close>; on
  \<open>n0 = 5\<close>, \<open>n1 = 5\<close>, \<open>n = 10\<close> it returns \<open>2000 / 900\<close>.
\<close>

theorem calculate_variance_formula:
  fixes k0 k1 k :: int
  shows "calculate_variance k0 k1 k =
           Inr (if k \<le> 1 then 0
                else of_int (2 * k0 * k1 * (2 * k0 * k1 - k)) / of_int (k\<^sup>2 * (k - 1)))
         \<and> calculate_variance 5 5 10 = Inr (2000 / 900)"
  by (simp add: calculate_variance_eq)

text \<open>
  Claim C5: on the sample 0.1, 0.9, 0.2, 0.8, 0.3 at significance level 0.05,
  \<^verbatim>\<open>execute\<close> returns the sequence 0, 1, 0, 1, 0 with 5 runs, 3 zeros, 2 ones, size 5,
  expected runs 2.9, variance 0.84 and critical value 1.96, and it rejects
  independence, the statistic being larger in magnitude than the critical value.
\<close>

theorem execute_scenario:
  "execute [1 / 10, 9 / 10, 2 / 10, 8 / 10, 3 / 10] (5 / 100) =
     Inr \<lparr>sequence = [0, 1, 0, 1, 0], c0 = 5, n0 = 3, n1 = 2, n = 5,
          mu_c0 = 29 / 10, variance = 84 / 100, sigma_c0 = sqrt (84 / 100),
          z0 = (5 - 29 / 10) / sqrt (84 / 100), z_critical = 196 / 100,
          is_independent = False, alpha = 5 / 100, confidence = 95\<rparr>
   \<and> \<bar>(5 - 29 / 10) / sqrt (84 / 100)\<bar> > (196 / 100 :: real)"
proof -
  define d :: "real list" where "d = [1 / 10, 9 / 10, 2 / 10, 8 / 10, 3 / 10]"
  have ne: "d \<noteq> []" and len: "length d = 5" by (simp_all add: d_def)
  have g: "generate d = [0, 1, 0, 1, 0]"
    by (simp add: d_def generate_def THRESHOLD_def)
  have c: "count [0, 1, 0, 1, 0] = 5"
    by (simp add: count_def count_step_def upt_conv_Cons)
  have r: "\<not> \<bar>(5 - 29 / 10) / sqrt (84 / 100)\<bar> \<le> (196 / 100 :: real)"
    by (rule scenario_rejects)
  have "execute d (5 / 100) =
     Inr \<lparr>sequence = [0, 1, 0, 1, 0], c0 = 5, n0 = 3, n1 = 2, n = 5,
          mu_c0 = 29 / 10, variance = 84 / 100, sigma_c0 = sqrt (84 / 100),
          z0 = (5 - 29 / 10) / sqrt (84 / 100), z_critical = 196 / 100,
          is_independent = False, alpha = 5 / 100, confidence = 95\<rparr>"
    using r by (simp add: execute_nonempty [OF ne] g c len)
  with r show ?thesis by (simp add: d_def)
qed

text \<open>
  Claim C6: the encoder returns a sequence as long as its input whose symbol at each
  position is 0 if the input there is strictly below 0.5 and 1 otherwise; the value 0.5
  itself is encoded as 1.
\<close>

theorem generate_encoding:
  "length (generate data) = length data
   \<and> (\<forall>i < length data. generate data ! i = (if data ! i < 1 / 2 then 0 else 1))
   \<and> generate [1 / 2] = [1]"
  by (simp add: generate_def THRESHOLD_def)

theorem generate_encoding_witness:
  "(1::nat) < length [1 / 10, 1 / 2, 9 / 10 :: real]
   \<and> generate [1 / 10, 1 / 2, 9 / 10] ! 1 = 1"
proof -
  have h: "(1::nat) < length [1 / 10, 1 / 2, 9 / 10 :: real]" by simp
  from generate_encoding [of "[1 / 10, 1 / 2, 9 / 10]"] h
  have "generate [1 / 10, 1 / 2, 9 / 10] ! 1
        = (if [1 / 10, 1 / 2, 9 / 10 :: real] ! 1 < 1 / 2 then 0 else 1)"
    by blast
  also have "\<dots> = 1" by simp
  finally show ?thesis using h by blast
qed

text \<open>
  Claim C7: on every binary sequence \<^verbatim>\<open>count_values\<close> returns two counts that add
  up to the length; \<^verbatim>\<open>count\<close> returns a number of runs between 1 and the length when
  the sequence has at least one element, and returns 0 exactly on the empty sequence.
\<close>

theorem count_invariants:
  assumes "set xs \<subseteq> {0, 1}"
  shows "(case count_values xs of (a, b) \<Rightarrow> a + b = int (length xs))
         \<and> (1 \<le> length xs \<longrightarrow> 1 \<le> count xs \<and> count xs \<le> int (length xs))
         \<and> (count xs = 0 \<longleftrightarrow> length xs = 0)"
proof -
  from assms have "int (count_list xs 0) + int (count_list xs 1) = int (length xs)"
    using count_list_binary [of xs] by linarith
  then have a: "case count_values xs of (a, b) \<Rightarrow> a + b = int (length xs)"
    by (simp add: count_values_def)
  have b: "1 \<le> length xs \<longrightarrow> 1 \<le> count xs \<and> count xs \<le> int (length xs)"
  proof
    assume "1 \<le> length xs"
    then have "xs \<noteq> []" by auto
    then show "1 \<le> count xs \<and> count xs \<le> int (length xs)" by (rule count_bounds)
  qed
  have c: "count xs = 0 \<longleftrightarrow> length xs = 0"
    using count_zero_iff [of xs] by simp
  from a b c show ?thesis by blast
qed

theorem count_invariants_witness:
  "set [0, 1, 1, 0 :: int] \<subseteq> {0, 1}
   \<and> count_values [0, 1, 1, 0] = (2, 2)
   \<and> 1 \<le> length [0, 1, 1, 0 :: int]
   \<and> 1 \<le> count [0, 1, 1, 0] \<and> count [0, 1, 1, 0] \<le> 4"
proof -
  have h: "set [0, 1, 1, 0 :: int] \<subseteq> {0, 1}" by simp
  have l: "1 \<le> length [0, 1, 1, 0 :: int]" by simp
  have v: "count_values [0, 1, 1, 0] = (2, 2)" by (simp add: count_values_def)
  from count_invariants [OF h] l
  have "1 \<le> count [0, 1, 1, 0] \<and> count [0, 1, 1, 0] \<le> int (length [0, 1, 1, 0 :: int])"
    by blast
  then have "1 \<le> count [0, 1, 1, 0] \<and> count [0, 1, 1, 0] \<le> 4" by simp
  with h l v show ?thesis by blast
qed

text \<open>
  Claim C8: \<^verbatim>\<open>validate\<close> returns true exactly when the magnitude of the statistic is
  at most the critical value, that is when the statistic lies in the closed interval
  between minus the critical value and the critical value; a statistic whose magnitude
  equals the critical value is accepted.
\<close>

theorem validate_iff:
  "(validate z zc \<longleftrightarrow> \<bar>z\<bar> \<le> zc)
   \<and> (validate z zc \<longleftrightarrow> - zc \<le> z \<and> z \<le> zc)
   \<and> validate z \<bar>z\<bar>"
  by (auto simp add: validate_def)

text \<open>
  Claim C9: for non-negative counts \<open>n0\<close> and \<open>n1\<close> with \<open>n0 + n1 = n\<close>,
  \<^verbatim>\<open>calculate_variance\<close> returns a non-negative number (two positive counts satisfy
  \<open>n0 + n1 \<le> 2 n0 n1\<close>), so \<^verbatim>\<open>math.sqrt\<close> accepts it and \<^verbatim>\<open>calculate_z_statistic\<close>
  does not raise on it; \<^verbatim>\<open>execute\<close> never ends with the \<open>ValueError\<close> of a square
  root, and the variance of every result it returns is non-negative, with the reported
  standard deviation its square root.
\<close>

theorem calculate_variance_nonneg:
  fixes k0 k1 k :: int and data :: "real list" and a c m :: real
  assumes "0 \<le> k0" and "0 \<le> k1" and "k0 + k1 = k"
  shows "(\<exists>v. calculate_variance k0 k1 k = Inr v \<and> 0 \<le> v
              \<and> math_sqrt v = Inr (sqrt v)
              \<and> calculate_z_statistic c m v \<noteq> Inl ValueError)
         \<and> (0 < k0 \<and> 0 < k1 \<longrightarrow> k0 + k1 \<le> 2 * k0 * k1)
         \<and> execute data a \<noteq> Inl ValueError
         \<and> (\<forall>r. execute data a = Inr r \<longrightarrow>
                0 \<le> variance r \<and> sigma_c0 r = sqrt (variance r))"
proof -
  have "\<exists>v. calculate_variance k0 k1 k = Inr v \<and> 0 \<le> v
              \<and> math_sqrt v = Inr (sqrt v)
              \<and> calculate_z_statistic c m v \<noteq> Inl ValueError"
    using variance_value_nonneg [OF assms]
    by (simp add: calculate_variance_eq math_sqrt_def calculate_z_statistic_eq)
  moreover have "0 < k0 \<and> 0 < k1 \<longrightarrow> k0 + k1 \<le> 2 * k0 * k1"
    using both_positive_bound by blast
  moreover have "execute data a \<noteq> Inl ValueError
         \<and> (\<forall>r. execute data a = Inr r \<longrightarrow>
                0 \<le> variance r \<and> sigma_c0 r = sqrt (variance r))"
  proof (cases "data = []")
    case True
    then show ?thesis by (simp add: execute_empty)
  next
    case False
    let ?s = "generate data"
    have "count_list ?s 0 + count_list ?s 1 = length data"
      using count_list_binary [OF generate_binary, of data] by (simp add: generate_length)
    then have "int (count_list ?s 0) + int (count_list ?s 1) = int (length data)"
      by linarith
    from variance_value_nonneg [OF _ _ this]
    have nn: "0 \<le> (if int (length data) \<le> 1 then 0
      else of_int (2 * int (count_list ?s 0) * int (count_list ?s 1)
                   * (2 * int (count_list ?s 0) * int (count_list ?s 1) - int (length data)))
           / (of_int ((int (length data))\<^sup>2 * (int (length data) - 1)) :: real))"
      by simp
    show ?thesis
      using nn
      by (auto simp add: execute_nonempty [OF False]
          simp del: of_int_mult of_int_diff of_int_power)
  qed
  ultimately show ?thesis by blast
qed

theorem calculate_variance_nonneg_witness:
  "(0::int) \<le> 3 \<and> (0::int) \<le> 2 \<and> (3::int) + 2 = 5
   \<and> calculate_variance 3 2 5 = Inr (84 / 100) \<and> (0::real) \<le> 84 / 100
   \<and> math_sqrt (84 / 100) = Inr (sqrt (84 / 100))
   \<and> (0::int) < 3 \<and> (0::int) < 2 \<and> (3::int) + 2 \<le> 2 * 3 * 2
   \<and> (\<exists>r. execute [1 / 10, 9 / 10] (5 / 100) = Inr r
          \<and> 0 \<le> variance r \<and> sigma_c0 r = sqrt (variance r))"
proof -
  have h1: "(0::int) \<le> 3" and h2: "(0::int) \<le> 2" and h3: "(3::int) + 2 = 5"
    and p: "(0::int) < 3 \<and> (0::int) < 2"
    by simp_all
  have cv: "calculate_variance 3 2 5 = Inr (84 / 100)"
    by (simp add: calculate_variance_eq)
  obtain r where r: "execute [1 / 10, 9 / 10] (5 / 100) = Inr r"
    using execute_nonempty_returns [of "[1 / 10, 9 / 10]" "5 / 100"] by auto
  note t = calculate_variance_nonneg [OF h1 h2 h3,
      where c = 0 and m = 0 and data = "[1 / 10, 9 / 10]" and a = "5 / 100"]
  from t obtain v where v: "calculate_variance 3 2 5 = Inr v" "0 \<le> v"
      "math_sqrt v = Inr (sqrt v)"
    by blast
  from v(1) cv have "v = 84 / 100" by simp
  with v have e: "(0::real) \<le> 84 / 100" "math_sqrt (84 / 100) = Inr (sqrt (84 / 100))"
    by simp_all
  from t p have b: "(3::int) + 2 \<le> 2 * 3 * 2" by blast
  from t r have x: "0 \<le> variance r \<and> sigma_c0 r = sqrt (variance r)" by blast
  from h1 h2 h3 cv e p b r x show ?thesis by blast
qed

text \<open>
  Claim C10: on every non-empty sample whose values are all strictly below 0.5, or all
  at least 0.5, \<^verbatim>\<open>execute\<close> returns a result with variance 0, statistic 0 and the
  verdict that the sample is independent, at every significance level.
\<close>

theorem execute_constant_sample:
  fixes data :: "real list" and a :: real
  assumes "data \<noteq> []"
    and "(\<forall>x \<in> set data. x < 1 / 2) \<or> (\<forall>x \<in> set data. 1 / 2 \<le> x)"
  shows "\<exists>r. execute data a = Inr r \<and> variance r = 0 \<and> z0 r = 0 \<and> is_independent r"
proof -
  from assms(2)
  have "count_list (generate data) 0 = 0 \<or> count_list (generate data) 1 = 0"
  proof
    assume "\<forall>x \<in> set data. x < 1 / 2"
    then have "count_list (generate data) 1 = 0" by (rule count_list_generate_low)
    then show ?thesis ..
  next
    assume "\<forall>x \<in> set data. 1 / 2 \<le> x"
    then have "count_list (generate data) 0 = 0" by (rule count_list_generate_high)
    then show ?thesis ..
  qed
  then show ?thesis
    by (auto simp add: execute_nonempty [OF assms(1)])
qed

theorem execute_constant_sample_witness:
  "[1 / 10, 2 / 10 :: real] \<noteq> []
   \<and> (1 / 10 :: real) < 1 / 2 \<and> (2 / 10 :: real) < 1 / 2
   \<and> (\<exists>r. execute [1 / 10, 2 / 10] (5 / 100) = Inr r
          \<and> variance r = 0 \<and> z0 r = 0 \<and> is_independent r)"
proof -
  have h1: "[1 / 10, 2 / 10 :: real] \<noteq> []" by simp
  have l: "(1 / 10 :: real) < 1 / 2" "(2 / 10 :: real) < 1 / 2" by simp_all
  then have h2: "\<forall>x \<in> set [1 / 10, 2 / 10 :: real]. x < 1 / 2" by simp
  then have h3: "(\<forall>x \<in> set [1 / 10, 2 / 10 :: real]. x < 1 / 2)
                 \<or> (\<forall>x \<in> set [1 / 10, 2 / 10 :: real]. 1 / 2 \<le> x)" ..
  from execute_constant_sample [OF h1 h3, of "5 / 100"] h1 l
  show ?thesis by blast
qed

end
